theory Spec2Isabelle
  imports Main "HOL-Library.AList" "HOL-Library.List_Lexorder" "HOL-Library.Char_ord"
    "HOL-Library.Countable" "HOL-Library.Multiset"
begin

section \<open>Values handed to the serialiser\<close>

text \<open>
  The Python values that reach \<^verbatim>\<open>json.dumps\<close>: \<^verbatim>\<open>None\<close>, booleans, integers, floats,
  strings, lists and dictionaries with string keys. A dictionary is an association list in
  insertion order, as a Python \<^verbatim>\<open>dict\<close> iterates.

  Two values are the same term exactly when \<^verbatim>\<open>json.dumps\<close> writes them the same way, so
  values that Python's \<^verbatim>\<open>==\<close> identifies but the serialiser tells apart are kept apart:
  \<open>JBool True\<close>, \<open>JInt 1\<close> and \<open>JFloat 1\<close> are written \<^verbatim>\<open>true\<close>, \<^verbatim>\<open>1\<close> and \<^verbatim>\<open>1.0\<close>.
  \<open>JFloat r\<close> is the finite float of value \<open>r\<close> (floats are exact rationals), \<open>JFloat 0\<close>
  being the positive zero, written \<^verbatim>\<open>0.0\<close>; the negative zero, written \<^verbatim>\<open>-0.0\<close>, is
  \<open>JNegZero\<close>. The floats that are not finite are written \<^verbatim>\<open>NaN\<close>, \<^verbatim>\<open>Infinity\<close> and
  \<^verbatim>\<open>-Infinity\<close>. A clock reading is a positive finite float, a value of type \<open>rat\<close>.
\<close>

datatype json =
    JNull
  | JBool bool
  | JInt int
  | JFloat rat
  | JNegZero
  | JNaN
  | JInfinity
  | JNegInfinity
  | JStr string
  | JList "json list"
  | JDict "(string \<times> json) list"

instance json :: countable
  by countable_datatype

text \<open>
  \<^verbatim>\<open>json.dumps(..., sort_keys=True)\<close> emits the items of every dictionary ordered by key,
  at every nesting level. Strings are ordered lexicographically by character code.
\<close>

fun sort_keys :: "json \<Rightarrow> json" where
  "sort_keys (JList xs) = JList (map sort_keys xs)"
| "sort_keys (JDict kvs) = JDict (sort_key fst (map (\<lambda>(k, v). (k, sort_keys v)) kvs))"
| "sort_keys j = j"

text \<open>A Python dictionary holds no key twice, at any depth of the value.\<close>

fun keys_distinct :: "json \<Rightarrow> bool" where
  "keys_distinct (JList xs) = list_all keys_distinct xs"
| "keys_distinct (JDict kvs) = (distinct (map fst kvs) \<and> list_all (\<lambda>(k, v). keys_distinct v) kvs)"
| "keys_distinct j = True"

text \<open>
  Equality of two values as field data: lists are compared element by element, dictionaries
  as Python compares them (as many items, and every key of the first is a key of the second
  with the same value), whatever the insertion order of keys at any depth. Everything else is
  compared as the serialiser writes it, so \<^verbatim>\<open>0.0\<close> and \<^verbatim>\<open>-0.0\<close>, or \<^verbatim>\<open>1\<close>, \<^verbatim>\<open>1.0\<close> and
  \<^verbatim>\<open>True\<close>, are different values.
\<close>

fun same_value :: "json \<Rightarrow> json \<Rightarrow> bool" where
  "same_value (JList xs) (JList ys) = list_all2 same_value xs ys"
| "same_value (JDict p) (JDict q) =
     (length p = length q
      \<and> list_all (\<lambda>(k, v). case map_of q k of None \<Rightarrow> False | Some w \<Rightarrow> same_value v w) p)"
| "same_value a b = (a = b)"

text \<open>
  The digest stands for the library pipeline applied after key sorting: rendering the tree
  as text, UTF-8 encoding, SHA-256, \<^verbatim>\<open>hexdigest()\<close>. It is a parameter of every function
  that hashes.
\<close>

type_synonym digest = "json \<Rightarrow> string"

definition opt_str :: "string option \<Rightarrow> json" where
  "opt_str s = (case s of None \<Rightarrow> JNull | Some x \<Rightarrow> JStr x)"

section \<open>Transaction\<close>

record Transaction =
  vin :: string
  tx_type :: string
  actor_id :: string
  role :: string
  timestamp :: rat
  payload :: "(string \<times> json) list"
  tx_id :: "string option"
  signature :: "string option"

definition tx_to_dict :: "Transaction \<Rightarrow> json" where
  "tx_to_dict tx = JDict
     [(''tx_id'', opt_str (tx_id tx)),
      (''vin'', JStr (vin tx)),
      (''type'', JStr (tx_type tx)),
      (''actor_id'', JStr (actor_id tx)),
      (''role'', JStr (role tx)),
      (''timestamp'', JFloat (timestamp tx)),
      (''payload'', JDict (payload tx)),
      (''signature'', opt_str (signature tx))]"

definition compute_tx_id :: "digest \<Rightarrow> Transaction \<Rightarrow> string" where
  "compute_tx_id H tx = H (sort_keys (JDict
     [(''vin'', JStr (vin tx)),
      (''type'', JStr (tx_type tx)),
      (''actor_id'', JStr (actor_id tx)),
      (''role'', JStr (role tx)),
      (''timestamp'', JFloat (timestamp tx)),
      (''payload'', JDict (payload tx))]))"

text \<open>The constructor reads the clock; the reading is the argument \<open>now\<close>.\<close>

definition Transaction_init ::
  "digest \<Rightarrow> rat \<Rightarrow> string \<Rightarrow> string \<Rightarrow> string \<Rightarrow> string \<Rightarrow> (string \<times> json) list \<Rightarrow> Transaction" where
  "Transaction_init H now v ty a r p =
     (let tx = \<lparr>vin = v, tx_type = ty, actor_id = a, role = r, timestamp = now,
                payload = p, tx_id = None, signature = None\<rparr>
      in tx\<lparr>tx_id := Some (compute_tx_id H tx)\<rparr>)"

section \<open>Block\<close>

record Block =
  block_number :: nat
  block_timestamp :: rat
  block_transactions :: "Transaction list"
  previous_hash :: string
  nonce :: int
  block_hash :: "string option"

definition Block_init :: "rat \<Rightarrow> nat \<Rightarrow> Transaction list \<Rightarrow> string \<Rightarrow> int \<Rightarrow> Block" where
  "Block_init now n txs prev k =
     \<lparr>block_number = n, block_timestamp = now, block_transactions = txs,
      previous_hash = prev, nonce = k, block_hash = None\<rparr>"

definition compute_hash :: "digest \<Rightarrow> Block \<Rightarrow> string" where
  "compute_hash H b = H (sort_keys (JDict
     [(''block_number'', JInt (int (block_number b))),
      (''timestamp'', JFloat (block_timestamp b)),
      (''transactions'', JList (map tx_to_dict (block_transactions b))),
      (''nonce'', JInt (nonce b)),
      (''previous_hash'', JStr (previous_hash b))]))"

section \<open>Blockchain\<close>

text \<open>
  \<open>vin_index\<close> is the \<^verbatim>\<open>defaultdict(list)\<close>: an association list in key insertion order,
  a key being created by the first append under it.
\<close>

type_synonym index = "(string \<times> Transaction list) list"

record Blockchain =
  chain :: "Block list"
  transactions :: "Transaction list"
  vin_index :: index

definition index_get :: "index \<Rightarrow> string \<Rightarrow> Transaction list" where
  "index_get idx v = (case map_of idx v of None \<Rightarrow> [] | Some txs \<Rightarrow> txs)"

definition index_transaction :: "Transaction \<Rightarrow> index \<Rightarrow> index" where
  "index_transaction tx idx = AList.update (vin tx) (index_get idx (vin tx) @ [tx]) idx"

definition index_block :: "Block \<Rightarrow> index \<Rightarrow> index" where
  "index_block b idx = fold index_transaction (block_transactions b) idx"

definition create_block ::
  "digest \<Rightarrow> rat \<Rightarrow> int \<Rightarrow> string \<Rightarrow> Blockchain \<Rightarrow> Block \<times> Blockchain" where
  "create_block H now k prev L =
     (let block = Block_init now (length (chain L) + 1) (transactions L) prev k;
          block = block\<lparr>block_hash := Some (compute_hash H block)\<rparr>
      in (block, L\<lparr>vin_index := index_block block (vin_index L),
                   transactions := [],
                   chain := chain L @ [block]\<rparr>))"

definition Blockchain_init :: "digest \<Rightarrow> rat \<Rightarrow> Blockchain" where
  "Blockchain_init H now =
     snd (create_block H now 0 ''00'' \<lparr>chain = [], transactions = [], vin_index = []\<rparr>)"

definition add_transaction :: "Transaction \<Rightarrow> Blockchain \<Rightarrow> nat \<times> Blockchain" where
  "add_transaction tx L = (length (chain L) + 1, L\<lparr>transactions := transactions L @ [tx]\<rparr>)"

text \<open>\<^verbatim>\<open>chain[-1]\<close> raises \<^verbatim>\<open>IndexError\<close> on an empty list: the result \<open>None\<close>.\<close>

definition get_last_block :: "Blockchain \<Rightarrow> Block option" where
  "get_last_block L = (if chain L = [] then None else Some (last (chain L)))"

text \<open>The loop \<^verbatim>\<open>for i in range(1, len(self.chain))\<close>, over the list of its indices.\<close>

fun check_blocks :: "digest \<Rightarrow> Block list \<Rightarrow> nat list \<Rightarrow> bool" where
  "check_blocks H ch [] = True"
| "check_blocks H ch (i # rest) =
     (let current_block = ch ! i; previous_block = ch ! (i - 1)
      in if block_hash current_block \<noteq> Some (compute_hash H current_block) then False
         else if Some (previous_hash current_block) \<noteq> block_hash previous_block then False
         else check_blocks H ch rest)"

definition is_chain_valid :: "digest \<Rightarrow> Blockchain \<Rightarrow> bool" where
  "is_chain_valid H L = check_blocks H (chain L) [1..<length (chain L)]"

text \<open>
  \<^verbatim>\<open>sorted(transactions, key=...)\<close> is a stable sort; the stable sorted rearrangement of
  a list is unique, and \<open>sort_key\<close> computes it.
\<close>

definition get_vehicle_history :: "Blockchain \<Rightarrow> string \<Rightarrow> Transaction list" where
  "get_vehicle_history L v = sort_key timestamp (index_get (vin_index L) v)"

definition payload_get :: "(string \<times> json) list \<Rightarrow> string \<Rightarrow> json \<Rightarrow> json" where
  "payload_get p k d = (case map_of p k of None \<Rightarrow> d | Some x \<Rightarrow> x)"

definition payload_has :: "(string \<times> json) list \<Rightarrow> string \<Rightarrow> bool" where
  "payload_has p k = (map_of p k \<noteq> None)"

record VehicleInfo =
  info_vin :: string
  info_make :: json
  info_model :: json
  info_year :: json
  current_owner :: json
  latest_mileage :: json
  created_by :: "string option"
  created_at :: "rat option"
  total_transactions :: nat

definition info_step :: "VehicleInfo \<Rightarrow> Transaction \<Rightarrow> VehicleInfo" where
  "info_step info tx =
     (if tx_type tx = ''VEHICLE_CREATED'' then
        info\<lparr>info_make := payload_get (payload tx) ''make'' JNull,
             info_model := payload_get (payload tx) ''model'' JNull,
             info_year := payload_get (payload tx) ''year'' JNull,
             latest_mileage := payload_get (payload tx) ''initial_mileage'' JNull,
             current_owner := payload_get (payload tx) ''owner_id'' (JStr (actor_id tx)),
             created_by := Some (actor_id tx),
             created_at := Some (timestamp tx)\<rparr>
      else if tx_type tx = ''MILEAGE_UPDATE'' then
        info\<lparr>latest_mileage := payload_get (payload tx) ''new_mileage'' JNull\<rparr>
      else if tx_type tx = ''OWNERSHIP_TRANSFER'' then
        info\<lparr>current_owner := payload_get (payload tx) ''new_owner_id'' JNull\<rparr>
      else info)"

definition get_vehicle_info :: "Blockchain \<Rightarrow> string \<Rightarrow> VehicleInfo option" where
  "get_vehicle_info L v =
     (let history = get_vehicle_history L v
      in if history = [] then None
         else Some (foldl info_step
                \<lparr>info_vin = v, info_make = JNull, info_model = JNull, info_year = JNull,
                 current_owner = JNull, latest_mileage = JNull, created_by = None,
                 created_at = None, total_transactions = length history\<rparr> history))"

definition mileage_step :: "json \<Rightarrow> Transaction \<Rightarrow> json" where
  "mileage_step mileage tx =
     (if tx_type tx = ''VEHICLE_CREATED'' \<and> payload_has (payload tx) ''initial_mileage''
        then payload_get (payload tx) ''initial_mileage'' JNull
      else if tx_type tx = ''MILEAGE_UPDATE'' \<and> payload_has (payload tx) ''new_mileage''
        then payload_get (payload tx) ''new_mileage'' JNull
      else mileage)"

definition get_latest_mileage :: "Blockchain \<Rightarrow> string \<Rightarrow> json" where
  "get_latest_mileage L v = foldl mileage_step JNull (get_vehicle_history L v)"

definition vehicle_exists :: "Blockchain \<Rightarrow> string \<Rightarrow> bool" where
  "vehicle_exists L v = (map_of (vin_index L) v \<noteq> None \<and> length (index_get (vin_index L) v) > 0)"

definition rebuild_index_from_chain :: "Blockchain \<Rightarrow> nat \<times> Blockchain" where
  "rebuild_index_from_chain L =
     (let idx = fold index_block (chain L) []
      in (length idx, L\<lparr>vin_index := idx\<rparr>))"

section \<open>Signing\<close>

text \<open>
  \<open>sign_transaction\<close> raises \<^verbatim>\<open>ValueError\<close> itself when the identifier is missing or empty;
  the key import and the RSA signature are the cryptographic library's, a parameter that
  returns \<open>None\<close> where the library raises.
\<close>

datatype error = ValueError | LibraryError

type_synonym signer = "string \<Rightarrow> string \<Rightarrow> string option"

definition sign_transaction :: "signer \<Rightarrow> Transaction \<Rightarrow> string \<Rightarrow> error + Transaction" where
  "sign_transaction S tx private_key_hex =
     (case tx_id tx of
        None \<Rightarrow> Inl ValueError
      | Some i \<Rightarrow>
          if i = [] then Inl ValueError
          else (case S i private_key_hex of
                  None \<Rightarrow> Inl LibraryError
                | Some sg \<Rightarrow> Inr (tx\<lparr>signature := Some sg\<rparr>)))"

section \<open>Runs of a ledger\<close>

text \<open>
  The state-changing methods of \<open>Blockchain\<close>, as operations; a run applies a list of them to a
  freshly constructed ledger. Each sealing carries its clock reading, nonce and the
  \<open>previous_hash\<close> the caller passes.
\<close>

datatype ledger_op =
    AddTransaction Transaction
  | CreateBlock rat int string
  | RebuildIndex

fun apply_op :: "digest \<Rightarrow> Blockchain \<Rightarrow> ledger_op \<Rightarrow> Blockchain" where
  "apply_op H L (AddTransaction tx) = snd (add_transaction tx L)"
| "apply_op H L (CreateBlock now k prev) = snd (create_block H now k prev L)"
| "apply_op H L RebuildIndex = snd (rebuild_index_from_chain L)"

definition run :: "digest \<Rightarrow> rat \<Rightarrow> ledger_op list \<Rightarrow> Blockchain" where
  "run H now ops = foldl (apply_op H) (Blockchain_init H now) ops"

text \<open>
  The unit tests seal with \<^verbatim>\<open>create_block(nonce, previous_hash=get_last_block().hash)\<close>.
\<close>

definition last_hash :: "Blockchain \<Rightarrow> string" where
  "last_hash L = (case get_last_block L of
                    None \<Rightarrow> []
                  | Some b \<Rightarrow> (case block_hash b of None \<Rightarrow> [] | Some h \<Rightarrow> h))"

definition mine_block :: "digest \<Rightarrow> rat \<Rightarrow> int \<Rightarrow> Blockchain \<Rightarrow> Block \<times> Blockchain" where
  "mine_block H now k L = create_block H now k (last_hash L) L"

text \<open>
  Stand-ins for the two library parameters in closed instances: an injective digest (the
  idealisation of a collision-free hash) and a signer that accepts every key.
\<close>

definition unary_digest :: digest where
  "unary_digest j = replicate (to_nat j) (CHR ''1'')"

definition concat_signer :: signer where
  "concat_signer i k = Some (i @ k)"

text \<open>Overwriting the \<open>previous_hash\<close> attribute of the block at index \<open>i\<close>.\<close>

definition set_previous_hash :: "nat \<Rightarrow> string \<Rightarrow> Blockchain \<Rightarrow> Blockchain" where
  "set_previous_hash i h L = L\<lparr>chain := (chain L)[i := (chain L ! i)\<lparr>previous_hash := h\<rparr>]\<rparr>"

text \<open>A ledger with one sealed transaction, as built by the unit tests.\<close>

definition tx_demo :: Transaction where
  "tx_demo = Transaction_init unary_digest 1 ''V1'' ''VEHICLE_CREATED'' ''m1'' ''MANUFACTURER''
     [(''make'', JStr ''Acme'')]"

definition two_blocks :: Blockchain where
  "two_blocks = snd (mine_block unary_digest 2 1
     (snd (add_transaction tx_demo (Blockchain_init unary_digest 0))))"

text \<open>\<^verbatim>\<open>add_transaction\<close> called once for each element of a list, collecting what the calls return.\<close>

fun add_transactions :: "Transaction list \<Rightarrow> Blockchain \<Rightarrow> nat list \<times> Blockchain" where
  "add_transactions [] L = ([], L)"
| "add_transactions (tx # txs) L =
     (let (r, L1) = add_transaction tx L; (rs, L2) = add_transactions txs L1 in (r # rs, L2))"

text \<open>Transactions for the closed instances.\<close>

definition tx_empty_vin :: Transaction where
  "tx_empty_vin = Transaction_init unary_digest 1 [] ''NOT_AN_EVENT'' ''u1'' ''BUYER'' []"

definition tx_signed :: Transaction where
  "tx_signed = tx_demo\<lparr>tx_id := Some ''ab'', signature := Some ''old''\<rparr>"

definition tx_unidentified :: Transaction where
  "tx_unidentified = tx_demo\<lparr>tx_id := None\<rparr>"

text \<open>All transactions of the sealed blocks, in chain order and then in block order.\<close>

definition chain_transactions :: "Blockchain \<Rightarrow> Transaction list" where
  "chain_transactions L = concat (map block_transactions (chain L))"

text \<open>
  Two transactions agree on every attribute, payloads being compared by their key-sorted form,
  that is up to the insertion order of keys.
\<close>

definition same_fields :: "Transaction \<Rightarrow> Transaction \<Rightarrow> bool" where
  "same_fields a b \<longleftrightarrow>
     vin a = vin b \<and> tx_type a = tx_type b \<and> actor_id a = actor_id b \<and> role a = role b
     \<and> timestamp a = timestamp b
     \<and> sort_keys (JDict (payload a)) = sort_keys (JDict (payload b))
     \<and> tx_id a = tx_id b \<and> signature a = signature b"

text \<open>
  An in-place mutation \<open>f\<close> of a transaction object held by sealed blocks: \<open>P i k\<close> tells
  whether the object is the \<open>k\<close>-th transaction of the block at index \<open>i\<close> (one object may
  occur at several places). Nothing else of the ledger is touched, stored hashes included.
\<close>

definition mutate_where ::
  "(nat \<Rightarrow> nat \<Rightarrow> bool) \<Rightarrow> (Transaction \<Rightarrow> Transaction) \<Rightarrow> Blockchain \<Rightarrow> Blockchain" where
  "mutate_where P f L = L\<lparr>chain :=
     map (\<lambda>(i, b). b\<lparr>block_transactions :=
            map (\<lambda>(k, tx). if P i k then f tx else tx) (enumerate 0 (block_transactions b))\<rparr>)
         (enumerate 0 (chain L))\<rparr>"

text \<open>The mutation of the unit test \<^verbatim>\<open>test_chain_validity\<close>.\<close>

definition hack_vin :: "Transaction \<Rightarrow> Transaction" where
  "hack_vin tx = tx\<lparr>vin := ''HACKED-VIN''\<rparr>"

text \<open>The ledger \<open>two_blocks\<close> as a run.\<close>

definition demo_ops :: "ledger_op list" where
  "demo_ops = [AddTransaction tx_demo,
               CreateBlock 2 1 (last_hash (Blockchain_init unary_digest 0))]"

text \<open>
  Two transactions with the same fields, the payload keys inserted in different orders at the
  top level and inside a nested dictionary.
\<close>

definition tx_reordered :: Transaction where
  "tx_reordered = \<lparr>vin = ''V1'', tx_type = ''VEHICLE_CREATED'', actor_id = ''m1'',
     role = ''MANUFACTURER'', timestamp = 1,
     payload = [(''year'', JInt 2024),
                (''specs'', JDict [(''seats'', JInt 5), (''engine'', JFloat 0)]),
                (''make'', JStr ''Acme'')],
     tx_id = None, signature = Some ''s1''\<rparr>"

definition tx_ordered :: Transaction where
  "tx_ordered = \<lparr>vin = ''V1'', tx_type = ''VEHICLE_CREATED'', actor_id = ''m1'',
     role = ''MANUFACTURER'', timestamp = 1,
     payload = [(''make'', JStr ''Acme''),
                (''specs'', JDict [(''engine'', JFloat 0), (''seats'', JInt 5)]),
                (''year'', JInt 2024)],
     tx_id = Some ''9f'', signature = None\<rparr>"

text \<open>Submitting one transaction and sealing a block at once.\<close>

definition submit_and_seal ::
  "digest \<Rightarrow> Transaction \<Rightarrow> rat \<Rightarrow> int \<Rightarrow> string \<Rightarrow> Blockchain \<Rightarrow> Blockchain" where
  "submit_and_seal H tx now k prev L = snd (create_block H now k prev (snd (add_transaction tx L)))"

text \<open>A transaction from which \<open>get_latest_mileage\<close> takes a value.\<close>

definition sets_mileage :: "Transaction \<Rightarrow> bool" where
  "sets_mileage tx \<longleftrightarrow>
     tx_type tx = ''VEHICLE_CREATED'' \<and> payload_has (payload tx) ''initial_mileage''
     \<or> tx_type tx = ''MILEAGE_UPDATE'' \<and> payload_has (payload tx) ''new_mileage''"

text \<open>Transactions and ledgers of the vehicle \<open>''V1''\<close> for the closed instances.\<close>

definition tx_created :: Transaction where
  "tx_created = Transaction_init unary_digest 1 ''V1'' ''VEHICLE_CREATED'' ''m1'' ''MANUFACTURER''
     [(''make'', JStr ''Acme''), (''model'', JStr ''X''), (''year'', JInt 2024),
      (''initial_mileage'', JInt 100)]"

definition tx_keyless :: Transaction where
  "tx_keyless = Transaction_init unary_digest 2 ''V1'' ''MILEAGE_UPDATE'' ''mech1'' ''MECHANIC'' []"

definition tx_service :: Transaction where
  "tx_service = Transaction_init unary_digest 3 ''V1'' ''SERVICE_RECORD'' ''mech1'' ''MECHANIC''
     [(''service_type'', JStr ''Oil Change'')]"

definition tx_update_500 :: Transaction where
   "tx_update_500 = Transaction_init unary_digest 2 ''V1'' ''MILEAGE_UPDATE'' ''mech1'' ''MECHANIC''
     [(''new_mileage'', JInt 500)]"

definition tx_transfer :: Transaction where
  "tx_transfer = Transaction_init unary_digest 3 ''V1'' ''OWNERSHIP_TRANSFER'' ''dmv_1'' ''DMV''
     [(''new_owner_id'', JStr ''b1'')]"

definition tx_later_update :: Transaction where
  "tx_later_update = Transaction_init unary_digest 3 ''V1'' ''MILEAGE_UPDATE'' ''mech1'' ''MECHANIC''
     [(''new_mileage'', JInt 500)]"

definition ledger_keyless_last :: Blockchain where
  "ledger_keyless_last = run unary_digest 0
     [AddTransaction tx_created, AddTransaction tx_keyless, AddTransaction tx_service,
      CreateBlock 4 1 ''00'']"

definition ledger_keyless_then_update :: Blockchain where
  "ledger_keyless_then_update = run unary_digest 0
     [AddTransaction tx_created, AddTransaction tx_keyless, AddTransaction tx_later_update,
      CreateBlock 4 1 ''00'']"

section \<open>Evaluation and the stand-in digest\<close>

lemmas ledger_defs = run_def mine_block_def create_block_def add_transaction_def Blockchain_init_def
  Block_init_def last_hash_def get_last_block_def index_block_def index_transaction_def
  index_get_def rebuild_index_from_chain_def Let_def

lemmas query_defs = get_vehicle_history_def get_vehicle_info_def get_latest_mileage_def
  info_step_def mileage_step_def payload_get_def payload_has_def

lemma inj_unary_digest: "inj unary_digest"
proof (rule injI)
  fix x y :: json
  assume "unary_digest x = unary_digest y"
  then have "length (replicate (to_nat x) (CHR ''1'')) = length (replicate (to_nat y) (CHR ''1''))"
    by (simp only: unary_digest_def)
  then show "x = y"
    by simp
qed

lemma unary_digest_no_f: "unary_digest j \<noteq> ''ff''"
proof
  assume "unary_digest j = ''ff''"
  then have "set (replicate (to_nat j) (CHR ''1'')) = set ''ff''"
    by (simp add: unary_digest_def)
  then show False
    by (cases "to_nat j = 0") auto
qed

lemma compute_hash_no_f: "compute_hash unary_digest b \<noteq> ''ff''"
  by (simp add: compute_hash_def unary_digest_no_f del: sort_keys.simps)

section \<open>Chain validation\<close>

lemma check_blocks_False:
  "i \<in> set js \<Longrightarrow> block_hash (ch ! i) \<noteq> Some (compute_hash H (ch ! i)) \<or>
     Some (previous_hash (ch ! i)) \<noteq> block_hash (ch ! (i - 1)) \<Longrightarrow> \<not> check_blocks H ch js"
  by (induction js) (auto simp: Let_def)

text \<open>
  C2 (as amended). For every block other than the genesis block (index \<open>i \<ge> 1\<close>), a
  \<open>previous_hash\<close> that differs from the stored hash of the block before it makes
  \<open>is_chain_valid\<close> return false, whatever the stored hashes are and whether or not they agree
  with the blocks' contents. The genesis block's \<open>previous_hash\<close> is never read.
\<close>

theorem C2_link_integrity_non_genesis:
  assumes "1 \<le> i" and "i < length (chain L)"
    and "Some (previous_hash (chain L ! i)) \<noteq> block_hash (chain L ! (i - 1))"
  shows "\<not> is_chain_valid H L"
  unfolding is_chain_valid_def
  using assms by (intro check_blocks_False[where i = i]) auto

theorem C2_link_integrity_witness:
  "(1::nat) \<le> 1 \<and> 1 < length (chain (set_previous_hash 1 ''ff'' two_blocks))
   \<and> Some (previous_hash (chain (set_previous_hash 1 ''ff'' two_blocks) ! 1))
       \<noteq> block_hash (chain (set_previous_hash 1 ''ff'' two_blocks) ! (1 - 1))
   \<and> \<not> is_chain_valid unary_digest (set_previous_hash 1 ''ff'' two_blocks)"
proof -
  have a: "1 < length (chain (set_previous_hash 1 ''ff'' two_blocks))"
    by (simp add: set_previous_hash_def two_blocks_def ledger_defs)
  have b: "Some (previous_hash (chain (set_previous_hash 1 ''ff'' two_blocks) ! 1))
       \<noteq> block_hash (chain (set_previous_hash 1 ''ff'' two_blocks) ! (1 - 1))"
    using compute_hash_no_f[symmetric]
    by (simp add: set_previous_hash_def two_blocks_def ledger_defs)
  show ?thesis
    using a b C2_link_integrity_non_genesis[of 1 "set_previous_hash 1 ''ff'' two_blocks" unary_digest]
    by simp
qed

text \<open>
  The claim as stated includes the genesis block: there, replacing the sentinel \<open>''00''\<close> by
  \<open>''ff''\<close> leaves a valid two-block chain valid.
\<close>

theorem C2_genesis_counterexample:
  "previous_hash (chain two_blocks ! 0) = ''00''
   \<and> previous_hash (chain (set_previous_hash 0 ''ff'' two_blocks) ! 0) = ''ff''
   \<and> is_chain_valid unary_digest two_blocks
   \<and> is_chain_valid unary_digest (set_previous_hash 0 ''ff'' two_blocks)"
  by (simp add: is_chain_valid_def set_previous_hash_def two_blocks_def ledger_defs
      compute_hash_def del: sort_keys.simps)

section \<open>Serialisation and tamper detection\<close>

lemma map_fst_sorted_items:
  "map fst (map (\<lambda>(k, v). (k, sort_keys v)) xs) = map fst xs"
  by (induction xs) auto

lemma distinct_sorted_items:
  assumes "distinct (map fst xs)"
  shows "distinct (map (\<lambda>(k, v). (k, sort_keys v)) xs)
       \<and> inj_on fst (set (map (\<lambda>(k, v). (k, sort_keys v)) xs))"
proof -
  have "distinct (map fst (map (\<lambda>(k, v). (k, sort_keys v)) xs))"
    unfolding map_fst_sorted_items by (rule assms)
  then show ?thesis
    by (rule iffD1[OF distinct_map])
qed

lemma same_value_sort_keys:
  "same_value a b \<Longrightarrow> keys_distinct a \<Longrightarrow> keys_distinct b \<Longrightarrow> sort_keys a = sort_keys b"
proof (induction a b rule: same_value.induct)
  case (1 xs ys)
  from "1.prems"(1) have len: "length xs = length ys"
    by (simp add: list_all2_lengthD)
  have "sort_keys (xs ! i) = sort_keys (ys ! i)" if "i < length xs" for i
  proof -
    from that len have mx: "xs ! i \<in> set xs" and my: "ys ! i \<in> set ys"
      by simp_all
    have "same_value (xs ! i) (ys ! i)"
      using "1.prems"(1) that by (simp add: list_all2_conv_all_nth)
    moreover have "keys_distinct (xs ! i)" and "keys_distinct (ys ! i)"
      using "1.prems"(2,3) mx my by (simp_all add: list_all_iff)
    ultimately show ?thesis
      using mx my by (intro "1.IH")
  qed
  then have "map sort_keys xs = map sort_keys ys"
    using len by (intro nth_equalityI) simp_all
  then show ?case
    by simp
next
  case (2 p q)
  let ?g = "\<lambda>(k, v). (k, sort_keys v)"
  from "2.prems" have len: "length p = length q"
    and dp: "distinct (map fst p)" and dq: "distinct (map fst q)"
    by simp_all
  have sub: "set (map ?g p) \<subseteq> set (map ?g q)"
  proof
    fix x
    assume "x \<in> set (map ?g p)"
    then obtain k v where kv: "(k, v) \<in> set p" and x: "x = (k, sort_keys v)"
      by auto
    from "2.prems"(1) kv obtain w where w: "map_of q k = Some w" and sv: "same_value v w"
      by (auto simp: list_all_iff split: option.splits)
    from w have kw: "(k, w) \<in> set q"
      by (rule map_of_SomeD)
    have "keys_distinct v" and "keys_distinct w"
      using "2.prems"(2,3) kv kw by (auto simp: list_all_iff)
    with sv have "sort_keys v = sort_keys w"
      using kv w by (intro "2.IH"[of "(k, v)" k v w]) simp_all
    with x kw show "x \<in> set (map ?g q)"
      by force
  qed
  have cp: "distinct (map ?g p) \<and> inj_on fst (set (map ?g p))"
    using dp by (rule distinct_sorted_items)
  have cq: "distinct (map ?g q) \<and> inj_on fst (set (map ?g q))"
    using dq by (rule distinct_sorted_items)
  from cp cq have ddp: "distinct (map ?g p)" and ddq: "distinct (map ?g q)"
    by simp_all
  have "card (set (map ?g p)) = card (set (map ?g q))"
    using ddp ddq len by (simp only: distinct_card length_map)
  with sub have "set (map ?g p) = set (map ?g q)"
    by (intro card_subset_eq) simp_all
  with ddp ddq have m: "mset (map ?g p) = mset (map ?g q)"
    by (simp only: set_eq_iff_mset_eq_distinct)
  from cp have "inj_on fst (set (map ?g p))"
    by simp
  with m have "sort_key fst (map ?g p) = sort_key fst (map ?g q)"
    by (rule sort_key_eq_sort_key)
  then show ?case
    by simp
qed simp_all

text \<open>
  For payloads that are dictionaries (no key twice), the key-sorted forms coincide exactly
  when both hold the same keys with the same values, values taken in key-sorted form: the
  comparison used by \<open>same_fields\<close> is equality of dictionaries.
\<close>

lemma sort_keys_payload_eq_iff:
  assumes "distinct (map fst p)" and "distinct (map fst q)"
  shows "sort_keys (JDict p) = sort_keys (JDict q) \<longleftrightarrow>
         map_of (map (\<lambda>(k, v). (k, sort_keys v)) p) = map_of (map (\<lambda>(k, v). (k, sort_keys v)) q)"
proof -
  let ?g = "\<lambda>(k, v). (k, sort_keys v)"
  have e: "map fst (map ?g xs) = map fst xs" for xs :: "(string \<times> json) list"
    by (induction xs) auto
  have dp: "distinct (map fst (map ?g p))" and dq: "distinct (map fst (map ?g q))"
    unfolding e by (rule assms)+
  have "sort_key fst (map ?g p) = sort_key fst (map ?g q) \<longleftrightarrow> mset (map ?g p) = mset (map ?g q)"
  proof
    assume "sort_key fst (map ?g p) = sort_key fst (map ?g q)"
    then have "mset (sort_key fst (map ?g p)) = mset (sort_key fst (map ?g q))"
      by simp
    then show "mset (map ?g p) = mset (map ?g q)"
      by (simp only: mset_sort)
  next
    assume "mset (map ?g p) = mset (map ?g q)"
    moreover have "inj_on fst (set (map ?g p))"
      using dp by (simp only: distinct_map)
    ultimately show "sort_key fst (map ?g p) = sort_key fst (map ?g q)"
      by (rule sort_key_eq_sort_key)
  qed
  also have "\<dots> \<longleftrightarrow> set (map ?g p) = set (map ?g q)"
  proof -
    have "distinct (map ?g p)" and "distinct (map ?g q)"
      using dp dq by (simp_all only: distinct_map)
    then show ?thesis
      by (simp only: set_eq_iff_mset_eq_distinct)
  qed
  also have "\<dots> \<longleftrightarrow> map_of (map ?g p) = map_of (map ?g q)"
    using dp dq by (rule map_of_inject_set[symmetric])
  finally show ?thesis
    by simp
qed

text \<open>
  The serialiser writes the two zeros differently, so a collision-free digest gives two
  transactions that differ only in the sign of a zero in the payload different identifiers.
\<close>

lemma compute_tx_id_zero_sign:
  assumes "inj H"
  shows "compute_tx_id H (tx\<lparr>payload := [(k, JFloat 0)]\<rparr>)
       \<noteq> compute_tx_id H (tx\<lparr>payload := [(k, JNegZero)]\<rparr>)"
  using assms by (simp add: compute_tx_id_def inj_eq)

text \<open>
  C5. Two transactions that agree on \<open>vin\<close>, \<open>type\<close>, \<open>actor_id\<close>, \<open>role\<close> and \<open>timestamp\<close> and
  whose payloads are equal dictionaries, whatever the insertion order of their keys at any
  depth, have the same computed identifier; \<open>signature\<close> and the stored \<open>tx_id\<close> are not read.
  The identifier is a function of these fields, so computing it again gives the same value.
\<close>

theorem C5_identity_deterministic:
  assumes "vin a = vin b" and "tx_type a = tx_type b" and "actor_id a = actor_id b"
    and "role a = role b" and "timestamp a = timestamp b"
    and "same_value (JDict (payload a)) (JDict (payload b))"
    and "keys_distinct (JDict (payload a))" and "keys_distinct (JDict (payload b))"
  shows "compute_tx_id H a = compute_tx_id H b"
proof -
  have "sort_keys (JDict (payload a)) = sort_keys (JDict (payload b))"
    using assms(6-8) by (rule same_value_sort_keys)
  then show ?thesis
    using assms(1-5) by (simp add: compute_tx_id_def)
qed

theorem C5_identity_deterministic_witness:
  "vin tx_reordered = vin tx_ordered \<and> tx_type tx_reordered = tx_type tx_ordered
   \<and> actor_id tx_reordered = actor_id tx_ordered \<and> role tx_reordered = role tx_ordered
   \<and> timestamp tx_reordered = timestamp tx_ordered
   \<and> same_value (JDict (payload tx_reordered)) (JDict (payload tx_ordered))
   \<and> keys_distinct (JDict (payload tx_reordered))
   \<and> keys_distinct (JDict (payload tx_ordered))
   \<and> payload tx_reordered \<noteq> payload tx_ordered
   \<and> map_of (payload tx_reordered) ''specs'' \<noteq> map_of (payload tx_ordered) ''specs''
   \<and> signature tx_reordered \<noteq> signature tx_ordered
   \<and> tx_id tx_reordered \<noteq> tx_id tx_ordered
   \<and> compute_tx_id unary_digest tx_reordered = compute_tx_id unary_digest tx_ordered"
proof -
  have h: "vin tx_reordered = vin tx_ordered" "tx_type tx_reordered = tx_type tx_ordered"
    "actor_id tx_reordered = actor_id tx_ordered" "role tx_reordered = role tx_ordered"
    "timestamp tx_reordered = timestamp tx_ordered"
    "same_value (JDict (payload tx_reordered)) (JDict (payload tx_ordered))"
    "keys_distinct (JDict (payload tx_reordered))"
    "keys_distinct (JDict (payload tx_ordered))"
    by (simp_all add: tx_reordered_def tx_ordered_def)
  have d: "payload tx_reordered \<noteq> payload tx_ordered"
    "map_of (payload tx_reordered) ''specs'' \<noteq> map_of (payload tx_ordered) ''specs''"
    "signature tx_reordered \<noteq> signature tx_ordered"
    "tx_id tx_reordered \<noteq> tx_id tx_ordered"
    by (simp_all add: tx_reordered_def tx_ordered_def)
  show ?thesis
    using h d C5_identity_deterministic[OF h, of unary_digest] by simp
qed

lemma sort_keys_opt_str: "sort_keys (opt_str s) = opt_str s"
  by (cases s) (simp_all add: opt_str_def)

lemma opt_str_eq: "opt_str s = opt_str t \<longleftrightarrow> s = t"
  by (cases s; cases t) (simp_all add: opt_str_def)

lemma sort_keys_tx_to_dict:
  "sort_keys (tx_to_dict tx) = JDict
     [(''actor_id'', JStr (actor_id tx)),
      (''payload'', sort_keys (JDict (payload tx))),
      (''role'', JStr (role tx)),
      (''signature'', opt_str (signature tx)),
      (''timestamp'', JFloat (timestamp tx)),
      (''tx_id'', opt_str (tx_id tx)),
      (''type'', JStr (tx_type tx)),
      (''vin'', JStr (vin tx))]"
  by (simp add: tx_to_dict_def sort_keys_opt_str)

lemma sort_keys_tx_to_dict_eq:
  "sort_keys (tx_to_dict a) = sort_keys (tx_to_dict b) \<longleftrightarrow> same_fields a b"
  unfolding sort_keys_tx_to_dict same_fields_def
  by (auto simp: opt_str_eq simp del: sort_keys.simps)

lemma compute_hash_canonical:
  "compute_hash H b = H (JDict
     [(''block_number'', JInt (int (block_number b))),
      (''nonce'', JInt (nonce b)),
      (''previous_hash'', JStr (previous_hash b)),
      (''timestamp'', JFloat (block_timestamp b)),
      (''transactions'', JList (map (sort_keys \<circ> tx_to_dict) (block_transactions b)))])"
  by (simp add: compute_hash_def)

lemma compute_hash_block_hash: "compute_hash H (b\<lparr>block_hash := h\<rparr>) = compute_hash H b"
  by (simp add: compute_hash_def)

lemma compute_hash_transactions_neq:
  assumes "inj H" and "k < length txs" and "\<not> same_fields (f (txs ! k)) (txs ! k)"
    and "block_transactions b = txs" and "P k"
  shows "compute_hash H (b\<lparr>block_transactions :=
           map (\<lambda>(j, tx). if P j then f tx else tx) (enumerate 0 txs)\<rparr>) \<noteq> compute_hash H b"
proof
  let ?txs' = "map (\<lambda>(j, tx). if P j then f tx else tx) (enumerate 0 txs)"
  assume "compute_hash H (b\<lparr>block_transactions := ?txs'\<rparr>) = compute_hash H b"
  then have "map (sort_keys \<circ> tx_to_dict) ?txs' = map (sort_keys \<circ> tx_to_dict) txs"
    using assms(1,4) by (simp add: compute_hash_canonical inj_eq)
  then have "map (sort_keys \<circ> tx_to_dict) ?txs' ! k = map (sort_keys \<circ> tx_to_dict) txs ! k"
    by simp
  then have "sort_keys (tx_to_dict (f (txs ! k))) = sort_keys (tx_to_dict (txs ! k))"
    using assms(2,5) by (simp add: nth_enumerate_eq del: sort_keys.simps)
  then show False
    using assms(3) by (simp only: sort_keys_tx_to_dict_eq)
qed

lemma foldl_apply_op_inv:
  assumes "P L" and "\<And>L x. P L \<Longrightarrow> P (apply_op H L x)"
  shows "P (foldl (apply_op H) L ops)"
  using assms(1) by (induction ops arbitrary: L) (simp_all add: assms(2))

lemma run_sealed:
  "list_all (\<lambda>b. block_hash b = Some (compute_hash H b)) (chain (run H now ops))"
  unfolding run_def
proof (rule foldl_apply_op_inv)
  show "list_all (\<lambda>b. block_hash b = Some (compute_hash H b)) (chain (Blockchain_init H now))"
    by (simp add: Blockchain_init_def create_block_def Let_def compute_hash_block_hash)
next
  fix L :: Blockchain and x
  assume "list_all (\<lambda>b. block_hash b = Some (compute_hash H b)) (chain L)"
  then show "list_all (\<lambda>b. block_hash b = Some (compute_hash H b)) (chain (apply_op H L x))"
    by (cases x)
      (simp_all add: add_transaction_def create_block_def rebuild_index_from_chain_def Let_def
        compute_hash_block_hash)
qed

lemma run_genesis:
  "chain (run H now ops) \<noteq> [] \<and> block_transactions (chain (run H now ops) ! 0) = []"
  unfolding run_def
proof (rule foldl_apply_op_inv)
  show "chain (Blockchain_init H now) \<noteq> []
      \<and> block_transactions (chain (Blockchain_init H now) ! 0) = []"
    by (simp add: Blockchain_init_def create_block_def Block_init_def Let_def)
next
  fix L :: Blockchain and x
  assume "chain L \<noteq> [] \<and> block_transactions (chain L ! 0) = []"
  then show "chain (apply_op H L x) \<noteq> [] \<and> block_transactions (chain (apply_op H L x) ! 0) = []"
    by (cases x)
      (simp_all add: add_transaction_def create_block_def rebuild_index_from_chain_def Let_def
        nth_append)
qed

lemma chain_mutate_where_nth:
  assumes "i < length (chain L)"
  shows "chain (mutate_where P f L) ! i = (chain L ! i)\<lparr>block_transactions :=
           map (\<lambda>(k, tx). if P i k then f tx else tx)
             (enumerate 0 (block_transactions (chain L ! i)))\<rparr>"
  using assms by (simp add: mutate_where_def nth_enumerate_eq)

text \<open>
  C1. Let the digest be collision-free (injective). In every state reached from a fresh ledger
  by \<open>add_transaction\<close>, \<open>create_block\<close> and \<open>rebuild_index_from_chain\<close>, mutating a transaction
  held by a sealed block so that some attribute of it changes (\<open>vin\<close>, \<open>type\<close>, \<open>actor_id\<close>,
  \<open>role\<close>, \<open>timestamp\<close>, \<open>payload\<close>, \<open>tx_id\<close> or \<open>signature\<close>), all stored block hashes being left
  as they are, makes \<open>is_chain_valid\<close> return false.
\<close>

theorem C1_tamper_detection:
  assumes "inj H"
    and "i < length (chain (run H now ops))"
    and "k < length (block_transactions (chain (run H now ops) ! i))"
    and "P i k"
    and "\<not> same_fields (f (block_transactions (chain (run H now ops) ! i) ! k))
                        (block_transactions (chain (run H now ops) ! i) ! k)"
  shows "\<not> is_chain_valid H (mutate_where P f (run H now ops))"
proof -
  let ?L = "run H now ops"
  let ?b = "chain ?L ! i"
  let ?b' = "chain (mutate_where P f ?L) ! i"
  have len: "length (chain (mutate_where P f ?L)) = length (chain ?L)"
    by (simp add: mutate_where_def)
  have "i \<noteq> 0"
  proof
    assume "i = 0"
    with assms(3) run_genesis[of H now ops] show False
      by simp
  qed
  with assms(2) len have mem: "i \<in> set [1..<length (chain (mutate_where P f ?L))]"
    by simp
  have b': "?b' = ?b\<lparr>block_transactions :=
              map (\<lambda>(j, tx). if P i j then f tx else tx) (enumerate 0 (block_transactions ?b))\<rparr>"
    using assms(2) by (rule chain_mutate_where_nth)
  have "?b \<in> set (chain ?L)"
    using assms(2) by simp
  then have "block_hash ?b = Some (compute_hash H ?b)"
    using run_sealed[of H now ops] by (simp add: list_all_iff)
  then have stored: "block_hash ?b' = Some (compute_hash H ?b)"
    by (simp add: b')
  have "compute_hash H ?b' \<noteq> compute_hash H ?b"
    unfolding b'
    using assms(1,3,5) refl assms(4) by (rule compute_hash_transactions_neq)
  with stored have "block_hash ?b' \<noteq> Some (compute_hash H ?b')"
    by simp
  then show ?thesis
    unfolding is_chain_valid_def
    using mem by (intro check_blocks_False[where i = i]) auto
qed

theorem C1_tamper_detection_witness:
  "inj unary_digest
   \<and> 1 < length (chain (run unary_digest 0 demo_ops))
   \<and> 0 < length (block_transactions (chain (run unary_digest 0 demo_ops) ! 1))
   \<and> \<not> same_fields (hack_vin (block_transactions (chain (run unary_digest 0 demo_ops) ! 1) ! 0))
                      (block_transactions (chain (run unary_digest 0 demo_ops) ! 1) ! 0)
   \<and> is_chain_valid unary_digest (run unary_digest 0 demo_ops)
   \<and> \<not> is_chain_valid unary_digest
         (mutate_where (\<lambda>i k. i = 1 \<and> k = 0) hack_vin (run unary_digest 0 demo_ops))"
proof -
  have a: "1 < length (chain (run unary_digest 0 demo_ops))"
    by (simp add: demo_ops_def ledger_defs)
  have b: "0 < length (block_transactions (chain (run unary_digest 0 demo_ops) ! 1))"
    by (simp add: demo_ops_def ledger_defs)
  have c: "\<not> same_fields (hack_vin (block_transactions (chain (run unary_digest 0 demo_ops) ! 1) ! 0))
                      (block_transactions (chain (run unary_digest 0 demo_ops) ! 1) ! 0)"
    by (simp add: demo_ops_def ledger_defs same_fields_def hack_vin_def tx_demo_def
        Transaction_init_def)
  have v: "is_chain_valid unary_digest (run unary_digest 0 demo_ops)"
    by (simp add: is_chain_valid_def demo_ops_def ledger_defs compute_hash_def
        del: sort_keys.simps)
  show ?thesis
    using a b c v inj_unary_digest
      C1_tamper_detection[where H = unary_digest and i = 1 and now = 0 and ops = demo_ops
        and k = 0 and P = "\<lambda>i k. i = 1 \<and> k = 0" and f = hack_vin]
    by simp
qed

section \<open>Pool and sealing\<close>

lemma add_transactions_eq:
  "add_transactions txs L =
     (replicate (length txs) (length (chain L) + 1), L\<lparr>transactions := transactions L @ txs\<rparr>)"
  by (induction txs arbitrary: L) (simp_all add: add_transaction_def)

text \<open>
  C4. On a ledger whose pending pool is empty, after \<open>add_transaction\<close> has been called for each
  transaction of a list \<open>txs\<close> (\<open>N = length txs\<close>) and \<open>create_block\<close> once: every call returned the
  chain length plus one, the new block holds exactly \<open>txs\<close> in submission order, its
  \<open>block_number\<close> is the previous chain length plus one, the pool is empty, and the block is the
  last of the chain.
\<close>

theorem C4_pool_seal:
  assumes "transactions L = []"
  shows "fst (add_transactions txs L) = replicate (length txs) (length (chain L) + 1)
    \<and> block_transactions (fst (create_block H now k prev (snd (add_transactions txs L)))) = txs
    \<and> block_number (fst (create_block H now k prev (snd (add_transactions txs L)))) = length (chain L) + 1
    \<and> transactions (snd (create_block H now k prev (snd (add_transactions txs L)))) = []
    \<and> chain (snd (create_block H now k prev (snd (add_transactions txs L))))
        = chain L @ [fst (create_block H now k prev (snd (add_transactions txs L)))]"
  using assms by (simp add: add_transactions_eq create_block_def Block_init_def Let_def)

theorem C4_pool_seal_witness:
  "transactions (Blockchain_init unary_digest 0) = []
    \<and> fst (add_transactions [tx_demo, tx_empty_vin] (Blockchain_init unary_digest 0)) = [2, 2]
    \<and> block_transactions (fst (create_block unary_digest 5 1 ''00''
          (snd (add_transactions [tx_demo, tx_empty_vin] (Blockchain_init unary_digest 0)))))
        = [tx_demo, tx_empty_vin]
    \<and> block_number (fst (create_block unary_digest 5 1 ''00''
          (snd (add_transactions [tx_demo, tx_empty_vin] (Blockchain_init unary_digest 0))))) = 2
    \<and> transactions (snd (create_block unary_digest 5 1 ''00''
          (snd (add_transactions [tx_demo, tx_empty_vin] (Blockchain_init unary_digest 0))))) = []"
proof -
  have e: "transactions (Blockchain_init unary_digest 0) = []"
    by (simp add: ledger_defs)
  have n: "length (chain (Blockchain_init unary_digest 0)) = 1"
    by (simp add: ledger_defs)
  show ?thesis
    using e n C4_pool_seal[OF e, of "[tx_demo, tx_empty_vin]" unary_digest 5 1 "''00''"]
    by simp
qed

section \<open>The VIN index\<close>

lemma index_get_Nil: "index_get [] v = []"
  by (simp add: index_get_def)

lemma index_get_index_transaction:
  "index_get (index_transaction tx idx) v = index_get idx v @ (if vin tx = v then [tx] else [])"
  by (simp add: index_get_def index_transaction_def update_conv')

lemma index_get_fold_transactions:
  "index_get (fold index_transaction txs idx) v = index_get idx v @ filter (\<lambda>tx. vin tx = v) txs"
  by (induction txs arbitrary: idx) (simp_all add: index_get_index_transaction)

lemma index_get_fold_blocks:
  "index_get (fold index_block bs idx) v
     = index_get idx v @ filter (\<lambda>tx. vin tx = v) (concat (map block_transactions bs))"
  by (induction bs arbitrary: idx) (simp_all add: index_block_def index_get_fold_transactions)

lemma keys_fold_transactions:
  "fst ` set (fold index_transaction txs idx) = fst ` set idx \<union> vin ` set txs"
  by (induction txs arbitrary: idx) (auto simp: index_transaction_def dom_update)

lemma keys_fold_blocks:
  "fst ` set (fold index_block bs idx)
     = fst ` set idx \<union> vin ` set (concat (map block_transactions bs))"
  by (induction bs arbitrary: idx) (auto simp: index_block_def keys_fold_transactions)

lemma distinct_fold_transactions:
  "distinct (map fst idx) \<Longrightarrow> distinct (map fst (fold index_transaction txs idx))"
  by (induction txs arbitrary: idx) (simp_all add: index_transaction_def distinct_update)

lemma distinct_fold_blocks:
  "distinct (map fst idx) \<Longrightarrow> distinct (map fst (fold index_block bs idx))"
  by (induction bs arbitrary: idx) (simp_all add: index_block_def distinct_fold_transactions)

lemma length_rebuilt_index:
  "length (fold index_block bs []) = length (remdups (map vin (concat (map block_transactions bs))))"
proof -
  have "length (fold index_block bs []) = length (map fst (fold index_block bs []))"
    by simp
  also have "\<dots> = card (set (map fst (fold index_block bs [])))"
    by (rule distinct_card[symmetric]) (simp add: distinct_fold_blocks)
  also have "\<dots> = card (vin ` set (concat (map block_transactions bs)))"
    using keys_fold_blocks[of bs "[]"] by simp
  also have "\<dots> = length (remdups (map vin (concat (map block_transactions bs))))"
    by (simp add: length_remdups_card_conv)
  finally show ?thesis .
qed

lemma apply_op_index:
  "vin_index L = fold index_block (chain L) [] \<Longrightarrow>
   vin_index (apply_op H L x) = fold index_block (chain (apply_op H L x)) []"
  by (cases x) (simp_all add: add_transaction_def create_block_def rebuild_index_from_chain_def Let_def)

lemma foldl_apply_op_index:
  "vin_index L = fold index_block (chain L) [] \<Longrightarrow>
   vin_index (foldl (apply_op H) L ops) = fold index_block (chain (foldl (apply_op H) L ops)) []"
  by (induction ops arbitrary: L) (simp_all add: apply_op_index)

lemma run_index: "vin_index (run H now ops) = fold index_block (chain (run H now ops)) []"
  unfolding run_def
  by (rule foldl_apply_op_index) (simp add: Blockchain_init_def create_block_def Let_def)

lemma run_index_get:
  "index_get (vin_index (run H now ops)) v
     = filter (\<lambda>tx. vin tx = v) (chain_transactions (run H now ops))"
  by (simp add: run_index index_get_fold_blocks index_get_Nil chain_transactions_def)

text \<open>
  C3. In every state reached from a fresh ledger by \<open>add_transaction\<close>, \<open>create_block\<close> and
  \<open>rebuild_index_from_chain\<close>, the index entry of each VIN is the concatenation, over the sealed
  blocks in chain order, of the block's transactions with that VIN in their block order.
  Hence rebuilding leaves every history as it was (it leaves the whole state as it was);
  rebuilding twice is rebuilding once, in any state; and the number returned is the number of
  distinct VINs among the transactions of the chain.
\<close>

theorem C3_index_consistency:
  "index_get (vin_index (run H now ops)) v
     = concat (map (\<lambda>b. filter (\<lambda>tx. vin tx = v) (block_transactions b)) (chain (run H now ops)))
   \<and> get_vehicle_history (snd (rebuild_index_from_chain (run H now ops))) v
       = get_vehicle_history (run H now ops) v
   \<and> snd (rebuild_index_from_chain (run H now ops)) = run H now ops
   \<and> rebuild_index_from_chain (snd (rebuild_index_from_chain L)) = rebuild_index_from_chain L
   \<and> fst (rebuild_index_from_chain L) = length (remdups (map vin (chain_transactions L)))"
proof -
  have r: "snd (rebuild_index_from_chain (run H now ops)) = run H now ops"
    by (simp add: rebuild_index_from_chain_def Let_def run_index[symmetric])
  have c: "index_get (vin_index (run H now ops)) v
     = concat (map (\<lambda>b. filter (\<lambda>tx. vin tx = v) (block_transactions b)) (chain (run H now ops)))"
    by (simp add: run_index_get chain_transactions_def filter_concat comp_def)
  have i: "rebuild_index_from_chain (snd (rebuild_index_from_chain L)) = rebuild_index_from_chain L"
    by (simp add: rebuild_index_from_chain_def Let_def)
  have n: "fst (rebuild_index_from_chain L) = length (remdups (map vin (chain_transactions L)))"
    by (simp add: rebuild_index_from_chain_def Let_def length_rebuilt_index chain_transactions_def)
  show ?thesis
    using r c i n by simp
qed

text \<open>
  C6. \<open>get_vehicle_history\<close> returns the transactions indexed under the VIN (the same
  multiset), sorted by \<open>timestamp\<close> ascending; transactions with the same timestamp keep the
  order they have in the index, which in a reachable state is their order in the chain and
  then in the block.
\<close>

theorem C6_history_ordering:
  "sorted (map timestamp (get_vehicle_history L v))
   \<and> mset (get_vehicle_history L v) = mset (index_get (vin_index L) v)
   \<and> filter (\<lambda>tx. timestamp tx = t) (get_vehicle_history L v)
       = filter (\<lambda>tx. timestamp tx = t) (index_get (vin_index L) v)
   \<and> filter (\<lambda>tx. timestamp tx = t) (get_vehicle_history (run H now ops) v)
       = filter (\<lambda>tx. timestamp tx = t) (filter (\<lambda>tx. vin tx = v) (chain_transactions (run H now ops)))"
  by (simp add: get_vehicle_history_def sort_key_stable run_index_get)

section \<open>Construction and signing\<close>

text \<open>
  C8 (as amended). Constructing a transaction never fails: for every \<open>vin\<close> and \<open>type\<close>, empty
  and unrecognised ones included, the constructor stores its arguments and the clock reading,
  computes \<open>tx_id\<close> and leaves the signature unset; \<open>add_transaction\<close> appends whatever
  transaction it is given to the pending pool.
\<close>

theorem C8_construction_never_fails:
  "vin (Transaction_init H now v ty a r p) = v
   \<and> tx_type (Transaction_init H now v ty a r p) = ty
   \<and> actor_id (Transaction_init H now v ty a r p) = a
   \<and> role (Transaction_init H now v ty a r p) = r
   \<and> timestamp (Transaction_init H now v ty a r p) = now
   \<and> payload (Transaction_init H now v ty a r p) = p
   \<and> tx_id (Transaction_init H now v ty a r p)
       = Some (compute_tx_id H (Transaction_init H now v ty a r p))
   \<and> signature (Transaction_init H now v ty a r p) = None
   \<and> transactions (snd (add_transaction (Transaction_init H now v ty a r p) L))
       = transactions L @ [Transaction_init H now v ty a r p]"
  by (simp add: Transaction_init_def add_transaction_def compute_tx_id_def Let_def del: sort_keys.simps)

text \<open>
  The claim as stated fails: a transaction with an empty \<open>vin\<close> and an unknown \<open>type\<close> is
  constructed and enters the pending pool.
\<close>

theorem C8_empty_vin_counterexample:
  "vin tx_empty_vin = [] \<and> tx_type tx_empty_vin = ''NOT_AN_EVENT''
   \<and> transactions (snd (add_transaction tx_empty_vin (Blockchain_init unary_digest 0)))
       = [tx_empty_vin]"
  by (simp add: tx_empty_vin_def Transaction_init_def ledger_defs)

text \<open>
  C9 (as amended). \<open>sign_transaction\<close> fails with \<open>ValueError\<close> when \<open>tx_id\<close> is missing or empty;
  when it succeeds the result is the transaction with only its \<open>signature\<close> replaced, by a
  signature that is set; and a signature already present plays no part: signing a signed
  transaction behaves as signing the unsigned one, replacing the old signature.
\<close>

theorem C9_signing:
  "(tx_id tx = None \<or> tx_id tx = Some [] \<longrightarrow> sign_transaction S tx key = Inl ValueError)
   \<and> (\<forall>tx'. sign_transaction S tx key = Inr tx' \<longrightarrow>
         signature tx' \<noteq> None \<and> tx' = tx\<lparr>signature := signature tx'\<rparr>)
   \<and> sign_transaction S (tx\<lparr>signature := old\<rparr>) key = sign_transaction S tx key"
  by (auto simp: sign_transaction_def split: option.splits)

theorem C9_signing_witness:
  "(tx_id tx_unidentified = None \<and> sign_transaction concat_signer tx_unidentified ''k'' = Inl ValueError)
   \<and> (sign_transaction concat_signer tx_signed ''k'' = Inr (tx_signed\<lparr>signature := Some ''abk''\<rparr>)
        \<and> signature (tx_signed\<lparr>signature := Some ''abk''\<rparr>) \<noteq> None
        \<and> tx_signed\<lparr>signature := Some ''abk''\<rparr>
            = tx_signed\<lparr>signature := signature (tx_signed\<lparr>signature := Some ''abk''\<rparr>)\<rparr>)"
proof -
  have u: "tx_id tx_unidentified = None"
    by (simp add: tx_unidentified_def)
  have s: "sign_transaction concat_signer tx_signed ''k'' = Inr (tx_signed\<lparr>signature := Some ''abk''\<rparr>)"
    by (simp add: sign_transaction_def tx_signed_def concat_signer_def)
  show ?thesis
    using u s C9_signing[of tx_unidentified concat_signer "''k''"]
      C9_signing[of tx_signed concat_signer "''k''"]
    by simp
qed

text \<open>
  The claim as stated fails: signing a transaction that already carries a signature succeeds
  and overwrites it.
\<close>

theorem C9_resign_counterexample:
  "signature tx_signed = Some ''old''
   \<and> sign_transaction concat_signer tx_signed ''k'' = Inr (tx_signed\<lparr>signature := Some ''abk''\<rparr>)"
  by (simp add: sign_transaction_def tx_signed_def concat_signer_def)

section \<open>Derived vehicle state\<close>

text \<open>
  C7. On a fresh ledger, with clock readings that do not decrease from one construction to
  the next: after submitting and sealing VEHICLE_CREATED for \<open>''V1''\<close> by actor \<open>''m1''\<close> with
  payload make Acme, model X, year 2024, initial_mileage 100, \<open>get_vehicle_info\<close> gives make
  Acme, current owner m1 and latest mileage 100; after submitting and sealing MILEAGE_UPDATE
  with new_mileage 500 the latest mileage is 500; after submitting and sealing
  OWNERSHIP_TRANSFER with new_owner_id b1 the current owner is b1 and total_transactions is 3.
\<close>

theorem C7_state_fold_scenario:
  assumes "t1 \<le> t2" and "t2 \<le> t3"
    and "L1 = submit_and_seal H
           (Transaction_init H t1 ''V1'' ''VEHICLE_CREATED'' ''m1'' r1
              [(''make'', JStr ''Acme''), (''model'', JStr ''X''), (''year'', JInt 2024),
               (''initial_mileage'', JInt 100)])
           s1 k1 p1 (Blockchain_init H s0)"
    and "L2 = submit_and_seal H
           (Transaction_init H t2 ''V1'' ''MILEAGE_UPDATE'' a2 r2 [(''new_mileage'', JInt 500)])
           s2 k2 p2 L1"
    and "L3 = submit_and_seal H
           (Transaction_init H t3 ''V1'' ''OWNERSHIP_TRANSFER'' a3 r3
              [(''new_owner_id'', JStr ''b1'')])
           s3 k3 p3 L2"
  shows "map_option info_make (get_vehicle_info L1 ''V1'') = Some (JStr ''Acme'')
    \<and> map_option current_owner (get_vehicle_info L1 ''V1'') = Some (JStr ''m1'')
    \<and> map_option latest_mileage (get_vehicle_info L1 ''V1'') = Some (JInt 100)
    \<and> map_option latest_mileage (get_vehicle_info L2 ''V1'') = Some (JInt 500)
    \<and> map_option current_owner (get_vehicle_info L3 ''V1'') = Some (JStr ''b1'')
    \<and> map_option total_transactions (get_vehicle_info L3 ''V1'') = Some 3"
proof -
  have i1: "index_get (vin_index L1) ''V1'' =
      [Transaction_init H t1 ''V1'' ''VEHICLE_CREATED'' ''m1'' r1
              [(''make'', JStr ''Acme''), (''model'', JStr ''X''), (''year'', JInt 2024),
               (''initial_mileage'', JInt 100)]]"
    unfolding assms(3)
    by (simp add: submit_and_seal_def ledger_defs Transaction_init_def)
  have e1: "transactions L1 = []"
    unfolding assms(3) by (simp add: submit_and_seal_def create_block_def Let_def)
  have e2: "transactions L2 = []"
    unfolding assms(4) by (simp add: submit_and_seal_def create_block_def Let_def)
  have i2: "index_get (vin_index L2) ''V1'' = index_get (vin_index L1) ''V1'' @
      [Transaction_init H t2 ''V1'' ''MILEAGE_UPDATE'' a2 r2 [(''new_mileage'', JInt 500)]]"
    unfolding assms(4)
    by (simp add: submit_and_seal_def create_block_def add_transaction_def Block_init_def
        index_block_def Let_def index_get_index_transaction Transaction_init_def e1)
  have i3: "index_get (vin_index L3) ''V1'' = index_get (vin_index L2) ''V1'' @
      [Transaction_init H t3 ''V1'' ''OWNERSHIP_TRANSFER'' a3 r3 [(''new_owner_id'', JStr ''b1'')]]"
    unfolding assms(5)
    by (simp add: submit_and_seal_def create_block_def add_transaction_def Block_init_def
        index_block_def Let_def index_get_index_transaction Transaction_init_def e2)
  have s1: "map_option info_make (get_vehicle_info L1 ''V1'') = Some (JStr ''Acme'')
    \<and> map_option current_owner (get_vehicle_info L1 ''V1'') = Some (JStr ''m1'')
    \<and> map_option latest_mileage (get_vehicle_info L1 ''V1'') = Some (JInt 100)"
    by (simp add: query_defs i1 Transaction_init_def Let_def)
  have s2: "map_option latest_mileage (get_vehicle_info L2 ''V1'') = Some (JInt 500)"
    using assms(1) by (simp add: query_defs i1 i2 Transaction_init_def Let_def)
  have s3: "map_option current_owner (get_vehicle_info L3 ''V1'') = Some (JStr ''b1'')
    \<and> map_option total_transactions (get_vehicle_info L3 ''V1'') = Some 3"
    using assms(1,2) by (simp add: query_defs i1 i2 i3 Transaction_init_def Let_def)
  show ?thesis
    using s1 s2 s3 by simp
qed

theorem C7_state_fold_scenario_witness:
  "(1::rat) \<le> 2 \<and> (2::rat) \<le> 3
   \<and> map_option info_make (get_vehicle_info
        (submit_and_seal unary_digest tx_created 4 1 ''00'' (Blockchain_init unary_digest 0))
        ''V1'') = Some (JStr ''Acme'')
   \<and> map_option current_owner (get_vehicle_info
        (submit_and_seal unary_digest tx_created 4 1 ''00'' (Blockchain_init unary_digest 0))
        ''V1'') = Some (JStr ''m1'')
   \<and> map_option latest_mileage (get_vehicle_info
        (submit_and_seal unary_digest tx_created 4 1 ''00'' (Blockchain_init unary_digest 0))
        ''V1'') = Some (JInt 100)
   \<and> map_option latest_mileage (get_vehicle_info
        (submit_and_seal unary_digest tx_update_500 5 2 ''aa''
          (submit_and_seal unary_digest tx_created 4 1 ''00'' (Blockchain_init unary_digest 0)))
        ''V1'') = Some (JInt 500)
   \<and> map_option current_owner (get_vehicle_info
        (submit_and_seal unary_digest tx_transfer 6 3 ''bb''
          (submit_and_seal unary_digest tx_update_500 5 2 ''aa''
            (submit_and_seal unary_digest tx_created 4 1 ''00'' (Blockchain_init unary_digest 0))))
        ''V1'') = Some (JStr ''b1'')
   \<and> map_option total_transactions (get_vehicle_info
        (submit_and_seal unary_digest tx_transfer 6 3 ''bb''
          (submit_and_seal unary_digest tx_update_500 5 2 ''aa''
            (submit_and_seal unary_digest tx_created 4 1 ''00'' (Blockchain_init unary_digest 0))))
        ''V1'') = Some 3"
proof -
  have a: "(1::rat) \<le> 2" and b: "(2::rat) \<le> 3"
    by simp_all
  show ?thesis
    using a b
      C7_state_fold_scenario[OF a b refl refl refl, of unary_digest "''MANUFACTURER''" 4 1 "''00''" 0
        "''mech1''" "''MECHANIC''" 5 2 "''aa''" "''dmv_1''" "''DMV''" 6 3 "''bb''"]
    by (simp add: tx_created_def tx_update_500_def tx_transfer_def)
qed

lemma mileage_step_skip: "\<not> sets_mileage tx \<Longrightarrow> mileage_step m tx = m"
  by (auto simp: mileage_step_def sets_mileage_def)

lemma foldl_mileage_step_skip:
  "list_all (\<lambda>tx. \<not> sets_mileage tx) txs \<Longrightarrow> foldl mileage_step m txs = m"
  by (induction txs arbitrary: m) (simp_all add: mileage_step_skip)

lemma info_step_skip:
  "\<not> sets_mileage tx \<Longrightarrow> latest_mileage info = JNull \<Longrightarrow> latest_mileage (info_step info tx) = JNull"
  by (auto simp: info_step_def sets_mileage_def payload_get_def payload_has_def)

lemma foldl_info_step_skip:
  "list_all (\<lambda>tx. \<not> sets_mileage tx) txs \<Longrightarrow> latest_mileage info = JNull \<Longrightarrow>
   latest_mileage (foldl info_step info txs) = JNull"
  by (induction txs arbitrary: info) (simp_all add: info_step_skip)

lemma info_step_keyless:
  "tx_type mu = ''MILEAGE_UPDATE'' \<Longrightarrow> \<not> payload_has (payload mu) ''new_mileage'' \<Longrightarrow>
   latest_mileage (info_step info mu) = JNull"
  by (simp add: info_step_def payload_get_def payload_has_def)

text \<open>
  C10 (as amended). When the history of a vehicle has established a mileage other than
  \<open>None\<close>, then contains a MILEAGE_UPDATE whose payload lacks \<open>new_mileage\<close>, and no later
  transaction of the history sets a mileage, \<open>get_latest_mileage\<close> returns the established
  value while \<open>get_vehicle_info\<close> reports \<open>None\<close> as latest mileage: the two queries disagree.
\<close>

theorem C10_keyless_update_disagreement:
  assumes "get_vehicle_history L v = pre @ [mu] @ post"
    and "foldl mileage_step JNull pre \<noteq> JNull"
    and "tx_type mu = ''MILEAGE_UPDATE''"
    and "\<not> payload_has (payload mu) ''new_mileage''"
    and "list_all (\<lambda>tx. \<not> sets_mileage tx) post"
  shows "get_latest_mileage L v = foldl mileage_step JNull pre
    \<and> map_option latest_mileage (get_vehicle_info L v) = Some JNull
    \<and> map_option latest_mileage (get_vehicle_info L v) \<noteq> Some (get_latest_mileage L v)"
proof -
  have "\<not> sets_mileage mu"
    using assms(3,4) by (simp add: sets_mileage_def)
  then have m: "get_latest_mileage L v = foldl mileage_step JNull pre"
    using assms(1,5) by (simp add: get_latest_mileage_def foldl_mileage_step_skip mileage_step_skip)
  have i: "map_option latest_mileage (get_vehicle_info L v) = Some JNull"
    using assms(1,3,4,5)
    by (simp add: get_vehicle_info_def Let_def foldl_info_step_skip info_step_keyless)
  show ?thesis
    using m i assms(2) by auto
qed

lemma history_keyless_last:
  "get_vehicle_history ledger_keyless_last ''V1'' = [tx_created] @ [tx_keyless] @ [tx_service]"
  by (simp add: ledger_keyless_last_def ledger_defs get_vehicle_history_def
      tx_created_def tx_keyless_def tx_service_def Transaction_init_def)

theorem C10_keyless_update_witness:
  "get_vehicle_history ledger_keyless_last ''V1'' = [tx_created] @ [tx_keyless] @ [tx_service]
   \<and> foldl mileage_step JNull [tx_created] \<noteq> JNull
   \<and> tx_type tx_keyless = ''MILEAGE_UPDATE''
   \<and> \<not> payload_has (payload tx_keyless) ''new_mileage''
   \<and> list_all (\<lambda>tx. \<not> sets_mileage tx) [tx_service]
   \<and> get_latest_mileage ledger_keyless_last ''V1'' = JInt 100
   \<and> map_option latest_mileage (get_vehicle_info ledger_keyless_last ''V1'') = Some JNull"
proof -
  have a: "foldl mileage_step JNull [tx_created] \<noteq> JNull"
    and v: "foldl mileage_step JNull [tx_created] = JInt 100"
    by (simp_all add: mileage_step_def payload_has_def payload_get_def tx_created_def
        Transaction_init_def)
  have b: "tx_type tx_keyless = ''MILEAGE_UPDATE''"
    and c: "\<not> payload_has (payload tx_keyless) ''new_mileage''"
    by (simp_all add: tx_keyless_def Transaction_init_def payload_has_def)
  have d: "list_all (\<lambda>tx. \<not> sets_mileage tx) [tx_service]"
    by (simp add: sets_mileage_def tx_service_def Transaction_init_def)
  show ?thesis
    using a b c d v history_keyless_last
      C10_keyless_update_disagreement[OF history_keyless_last a b c d]
    by simp
qed

text \<open>
  The claim as stated fails when a later update carries the key: the history establishes 100,
  then holds a MILEAGE_UPDATE without \<open>new_mileage\<close>, then one with 500; both queries
  return 500.
\<close>

theorem C10_later_update_counterexample:
  "get_vehicle_history ledger_keyless_then_update ''V1'' = [tx_created, tx_keyless, tx_later_update]
   \<and> payload_get (payload tx_created) ''initial_mileage'' JNull = JInt 100
   \<and> tx_type tx_keyless = ''MILEAGE_UPDATE''
   \<and> \<not> payload_has (payload tx_keyless) ''new_mileage''
   \<and> get_latest_mileage ledger_keyless_then_update ''V1'' = JInt 500
   \<and> map_option latest_mileage (get_vehicle_info ledger_keyless_then_update ''V1'')
       = Some (JInt 500)"
proof -
  have h: "get_vehicle_history ledger_keyless_then_update ''V1''
      = [tx_created, tx_keyless, tx_later_update]"
    by (simp add: ledger_keyless_then_update_def ledger_defs get_vehicle_history_def
        tx_created_def tx_keyless_def tx_later_update_def Transaction_init_def)
  have m: "foldl mileage_step JNull [tx_created, tx_keyless, tx_later_update] = JInt 500"
    by (simp add: mileage_step_def payload_has_def payload_get_def tx_created_def tx_keyless_def
        tx_later_update_def Transaction_init_def)
  have i: "latest_mileage (foldl info_step info [tx_created, tx_keyless, tx_later_update])
      = JInt 500" for info
    by (simp add: info_step_def payload_get_def tx_created_def tx_keyless_def
        tx_later_update_def Transaction_init_def)
  have p: "payload_get (payload tx_created) ''initial_mileage'' JNull = JInt 100"
    "tx_type tx_keyless = ''MILEAGE_UPDATE''"
    "\<not> payload_has (payload tx_keyless) ''new_mileage''"
    by (simp_all add: payload_get_def payload_has_def tx_created_def tx_keyless_def
        Transaction_init_def)
  show ?thesis
    using h m i p by (simp add: get_latest_mileage_def get_vehicle_info_def Let_def)
qed

end
